theory Spec2Isabelle
  imports Main "HOL-Library.AList"
begin

section \<open>JavaScript values and operators\<close>

text \<open>
  The values the services store and return are JSON values.  \<open>JNull\<close> is JavaScript's
  \<^verbatim>\<open>null\<close>, which the cache returns for an absent key.  Numbers are modelled as
  integers (seconds, milliseconds, counters).
\<close>

datatype json =
    JNull
  | JBool bool
  | JNum int
  | JStr string
  | JArr "json list"
  | JObj "(string \<times> json) list"

text \<open>Truthiness of a parsed value, as \<^verbatim>\<open>!tokenData\<close> tests it.\<close>

fun truthy :: "json \<Rightarrow> bool" where
  "truthy JNull = False"
| "truthy (JBool b) = b"
| "truthy (JNum n) = (n \<noteq> 0)"
| "truthy (JStr s) = (s \<noteq> [])"
| "truthy (JArr xs) = True"
| "truthy (JObj kvs) = True"

text \<open>
  \<^verbatim>\<open>a || d\<close> on an optional number: \<^verbatim>\<open>undefined\<close> and \<^verbatim>\<open>0\<close> are falsy.
  On an optional string: \<^verbatim>\<open>undefined\<close> and the empty string are falsy.
\<close>

definition num_or :: "int option \<Rightarrow> int \<Rightarrow> int" where
  "num_or a d = (case a of None \<Rightarrow> d | Some n \<Rightarrow> if n = 0 then d else n)"

definition str_or :: "string option \<Rightarrow> string \<Rightarrow> string" where
  "str_or a d = (case a of None \<Rightarrow> d | Some s \<Rightarrow> if s = [] then d else s)"

text \<open>\<^verbatim>\<open>Math.ceil(x / 1000)\<close> on an integer \<open>x\<close>.\<close>

definition ceil_div1000 :: "int \<Rightarrow> int" where
  "ceil_div1000 x = - ((- x) div 1000)"

text \<open>
  \<^verbatim>\<open>JSON.stringify\<close> and \<^verbatim>\<open>JSON.parse\<close> belong to the language runtime; the services
  receive them as a codec.  \<open>parse\<close> returns \<open>None\<close> where \<^verbatim>\<open>JSON.parse\<close> throws.
\<close>

record json_codec =
  stringify :: "json \<Rightarrow> string"
  parse :: "string \<Rightarrow> json option"

section \<open>The remote store (protocol boundary)\<close>

text \<open>
  The store is the external key/value and sorted-set service.  One keyspace maps a key to
  a string or a sorted set, with an optional expiry instant in milliseconds.  A sorted set
  is a list of (member, score) pairs with distinct members; the limiter's members are
  timestamps, kept as numbers (their decimal rendering is injective).
\<close>

datatype rvalue = VString string | VZSet "(int \<times> int) list"

record entry =
  payload :: rvalue
  expire_at :: "int option"

datatype command =
    GET string
  | SET string string
  | SETEX string int string
  | DEL "string list"
  | EXISTS string
  | INCR string
  | MGET "string list"
  | SCAN string
  | ZADD string int int
  | ZCARD string
  | ZREMRANGEBYSCORE string int int
  | EXPIRE string int
  | TTL string

datatype reply =
    RNil
  | RBulk string
  | RInt int
  | RArray "reply list"
  | ROk

datatype store_error = Unreachable | WrongType | NotAnInteger | InvalidExpire

text \<open>
  \<open>clock\<close> is the current instant in milliseconds (what \<^verbatim>\<open>Date.now()\<close> reads);
  \<open>calls\<close> is the sequence of commands the client has sent; \<open>outage n\<close> says that the
  round trip sent when \<open>n\<close> commands had been sent before it fails (timeout or connection
  failure after the client's retries); \<open>matcher\<close> is the store's glob-style pattern match.
\<close>

record redis =
  db :: "(string \<times> entry) list"
  clock :: int
  calls :: "command list"
  outage :: "nat \<Rightarrow> bool"
  matcher :: "string \<Rightarrow> string \<Rightarrow> bool"

text \<open>A key whose expiry instant has passed reads as absent.\<close>

definition live_at :: "int \<Rightarrow> (string \<times> entry) list \<Rightarrow> string \<Rightarrow> entry option" where
  "live_at now d k =
     (case map_of d k of
        None \<Rightarrow> None
      | Some e \<Rightarrow>
          (case expire_at e of
             None \<Rightarrow> Some e
           | Some t \<Rightarrow> if now > t then None else Some e))"


subsection \<open>Decimal strings, for INCR\<close>

definition digit_char :: "nat \<Rightarrow> char" where
  "digit_char d = char_of (48 + d)"

fun show_nat :: "nat \<Rightarrow> string" where
  "show_nat n = (if n < 10 then [digit_char n] else show_nat (n div 10) @ [digit_char (n mod 10)])"

definition show_int :: "int \<Rightarrow> string" where
  "show_int i = (if i < 0 then CHR ''-'' # show_nat (nat (- i)) else show_nat (nat i))"

definition digit_val :: "char \<Rightarrow> nat option" where
  "digit_val c =
     (let n = of_char c :: nat in if 48 \<le> n \<and> n \<le> 57 then Some (n - 48) else None)"

fun read_nat :: "nat \<Rightarrow> string \<Rightarrow> nat option" where
  "read_nat acc [] = Some acc"
| "read_nat acc (c # cs) =
     (case digit_val c of None \<Rightarrow> None | Some d \<Rightarrow> read_nat (10 * acc + d) cs)"

definition read_int :: "string \<Rightarrow> int option" where
  "read_int s =
     (case s of
        [] \<Rightarrow> None
      | c # cs \<Rightarrow>
          if c = CHR ''-'' then
            (if cs = [] then None else map_option (\<lambda>n. - int n) (read_nat 0 cs))
          else map_option int (read_nat 0 s))"

subsection \<open>Sorted-set primitives\<close>

fun zset_add :: "int \<Rightarrow> int \<Rightarrow> (int \<times> int) list \<Rightarrow> (int \<times> int) list" where
  "zset_add m sc [] = [(m, sc)]"
| "zset_add m sc ((m', sc') # zs) =
     (if m = m' then (m, sc) # zs else (m', sc') # zset_add m sc zs)"

definition in_range :: "int \<Rightarrow> int \<Rightarrow> int \<times> int \<Rightarrow> bool" where
  "in_range lo hi p = (lo \<le> snd p \<and> snd p \<le> hi)"

definition zset_remrange :: "int \<Rightarrow> int \<Rightarrow> (int \<times> int) list \<Rightarrow> (int \<times> int) list" where
  "zset_remrange lo hi zs = filter (\<lambda>p. \<not> in_range lo hi p) zs"

subsection \<open>What each command does to the keyspace\<close>

definition del_key :: "int \<Rightarrow> string \<Rightarrow> int \<times> (string \<times> entry) list \<Rightarrow> int \<times> (string \<times> entry) list" where
  "del_key now k acc =
     (case live_at now (snd acc) k of
        None \<Rightarrow> (fst acc, AList.delete k (snd acc))
      | Some e \<Rightarrow> (fst acc + 1, AList.delete k (snd acc)))"

definition mget_one :: "int \<Rightarrow> (string \<times> entry) list \<Rightarrow> string \<Rightarrow> reply" where
  "mget_one now d k =
     (case live_at now d k of
        Some e \<Rightarrow> (case payload e of VString v \<Rightarrow> RBulk v | VZSet zs \<Rightarrow> RNil)
      | None \<Rightarrow> RNil)"

fun apply_cmd ::
  "(string \<Rightarrow> string \<Rightarrow> bool) \<Rightarrow> int \<Rightarrow> command \<Rightarrow> (string \<times> entry) list
     \<Rightarrow> (store_error + reply) \<times> (string \<times> entry) list" where
  "apply_cmd g now (GET k) d =
     (case live_at now d k of
        None \<Rightarrow> (Inr RNil, d)
      | Some e \<Rightarrow>
          (case payload e of
             VString v \<Rightarrow> (Inr (RBulk v), d)
           | VZSet zs \<Rightarrow> (Inl WrongType, d)))"
| "apply_cmd g now (SET k v) d =
     (Inr ROk, AList.update k \<lparr>payload = VString v, expire_at = None\<rparr> d)"
| "apply_cmd g now (SETEX k ttl v) d =
     (if ttl \<le> 0 then (Inl InvalidExpire, d)
      else (Inr ROk,
            AList.update k \<lparr>payload = VString v, expire_at = Some (now + ttl * 1000)\<rparr> d))"
| "apply_cmd g now (DEL ks) d =
     (let r = fold (del_key now) ks (0, d) in (Inr (RInt (fst r)), snd r))"
| "apply_cmd g now (EXISTS k) d =
     (case live_at now d k of None \<Rightarrow> (Inr (RInt 0), d) | Some e \<Rightarrow> (Inr (RInt 1), d))"
| "apply_cmd g now (INCR k) d =
     (case live_at now d k of
        None \<Rightarrow> (Inr (RInt 1), AList.update k \<lparr>payload = VString (show_int 1), expire_at = None\<rparr> d)
      | Some e \<Rightarrow>
          (case payload e of
             VZSet zs \<Rightarrow> (Inl WrongType, d)
           | VString v \<Rightarrow>
               (case read_int v of
                  None \<Rightarrow> (Inl NotAnInteger, d)
                | Some n \<Rightarrow>
                    (Inr (RInt (n + 1)),
                     AList.update k (e\<lparr>payload := VString (show_int (n + 1))\<rparr>) d))))"
| "apply_cmd g now (MGET ks) d = (Inr (RArray (map (mget_one now d) ks)), d)"
| "apply_cmd g now (SCAN p) d =
     (Inr (RArray (map RBulk (filter (\<lambda>k. live_at now d k \<noteq> None \<and> g p k) (map fst d)))), d)"
| "apply_cmd g now (ZADD k sc m) d =
     (case live_at now d k of
        None \<Rightarrow> (Inr (RInt 1), AList.update k \<lparr>payload = VZSet [(m, sc)], expire_at = None\<rparr> d)
      | Some e \<Rightarrow>
          (case payload e of
             VString v \<Rightarrow> (Inl WrongType, d)
           | VZSet zs \<Rightarrow>
               (Inr (RInt (if m \<in> fst ` set zs then 0 else 1)),
                AList.update k (e\<lparr>payload := VZSet (zset_add m sc zs)\<rparr>) d)))"
| "apply_cmd g now (ZCARD k) d =
     (case live_at now d k of
        None \<Rightarrow> (Inr (RInt 0), d)
      | Some e \<Rightarrow>
          (case payload e of
             VString v \<Rightarrow> (Inl WrongType, d)
           | VZSet zs \<Rightarrow> (Inr (RInt (int (length zs))), d)))"
| "apply_cmd g now (ZREMRANGEBYSCORE k lo hi) d =
     (case live_at now d k of
        None \<Rightarrow> (Inr (RInt 0), d)
      | Some e \<Rightarrow>
          (case payload e of
             VString v \<Rightarrow> (Inl WrongType, d)
           | VZSet zs \<Rightarrow>
               (let zs' = zset_remrange lo hi zs;
                    n = int (length zs) - int (length zs')
                in if zs' = [] then (Inr (RInt n), AList.delete k d)
                   else (Inr (RInt n), AList.update k (e\<lparr>payload := VZSet zs'\<rparr>) d))))"
| "apply_cmd g now (EXPIRE k secs) d =
     (case live_at now d k of
        None \<Rightarrow> (Inr (RInt 0), d)
      | Some e \<Rightarrow>
          (if secs \<le> 0 then (Inr (RInt 1), AList.delete k d)
           else (Inr (RInt 1), AList.update k (e\<lparr>expire_at := Some (now + secs * 1000)\<rparr>) d)))"
| "apply_cmd g now (TTL k) d =
     (case live_at now d k of
        None \<Rightarrow> (Inr (RInt (- 2)), d)
      | Some e \<Rightarrow>
          (case expire_at e of
             None \<Rightarrow> (Inr (RInt (- 1)), d)
           | Some t \<Rightarrow> (Inr (RInt ((max 0 (t - now) + 500) div 1000)), d)))"

subsection \<open>The client\<close>

text \<open>
  One awaited client call: the command is sent; if the round trip fails the promise rejects
  with \<open>Unreachable\<close> and the keyspace is untouched; an error reply rejects too.
\<close>

definition call :: "command \<Rightarrow> redis \<Rightarrow> (store_error + reply) \<times> redis" where
  "call c s =
     (let s' = s\<lparr>calls := calls s @ [c]\<rparr> in
      if outage s (length (calls s)) then (Inl Unreachable, s')
      else (let r = apply_cmd (matcher s) (clock s) c (db s) in (fst r, s'\<lparr>db := snd r\<rparr>)))"

text \<open>
  A pipeline: the queued commands travel in one round trip and run in order, not as a
  transaction.  \<^verbatim>\<open>exec()\<close> rejects when the round trip fails; an error reply of one
  command is an element of the result and does not reject.
\<close>

fun run_batch ::
  "(string \<Rightarrow> string \<Rightarrow> bool) \<Rightarrow> int \<Rightarrow> command list \<Rightarrow> (string \<times> entry) list
     \<Rightarrow> (store_error + reply) list \<times> (string \<times> entry) list" where
  "run_batch g now [] d = ([], d)"
| "run_batch g now (c # cs) d =
     (let r = apply_cmd g now c d; rest = run_batch g now cs (snd r)
      in (fst r # fst rest, snd rest))"

definition exec :: "command list \<Rightarrow> redis \<Rightarrow> (store_error + (store_error + reply) list) \<times> redis" where
  "exec cs s =
     (let s' = s\<lparr>calls := calls s @ cs\<rparr> in
      if outage s (length (calls s)) then (Inl Unreachable, s')
      else (let r = run_batch (matcher s) (clock s) cs (db s) in (Inr (fst r), s'\<lparr>db := snd r\<rparr>)))"

section \<open>RedisCacheService\<close>

record cache_options =
  ttl :: "int option"
  namespace :: "string option"

text \<open>\<^verbatim>\<open>options?.namespace\<close> and \<^verbatim>\<open>options?.ttl\<close> on an optional options object.\<close>

definition opt_namespace :: "cache_options option \<Rightarrow> string option" where
  "opt_namespace options = (case options of None \<Rightarrow> None | Some opts \<Rightarrow> namespace opts)"

definition opt_ttl :: "cache_options option \<Rightarrow> int option" where
  "opt_ttl options = (case options of None \<Rightarrow> None | Some opts \<Rightarrow> ttl opts)"

definition defaultTTL :: int where
  "defaultTTL = 300"

definition defaultNamespace :: string where
  "defaultNamespace = ''app''"

definition buildKey :: "string \<Rightarrow> string option \<Rightarrow> string" where
  "buildKey key ns = str_or ns defaultNamespace @ '':'' @ key"

text \<open>Decoding of replies, as the client library hands them to the service.\<close>

definition reply_int :: "reply \<Rightarrow> int" where
  "reply_int r = (case r of RInt n \<Rightarrow> n | _ \<Rightarrow> 0)"

definition reply_string :: "reply \<Rightarrow> string option" where
  "reply_string r = (case r of RBulk v \<Rightarrow> Some v | _ \<Rightarrow> None)"

definition reply_list :: "reply \<Rightarrow> reply list" where
  "reply_list r = (case r of RArray rs \<Rightarrow> rs | _ \<Rightarrow> [])"

definition reply_keys :: "reply \<Rightarrow> string list" where
  "reply_keys r = concat (map (\<lambda>x. case x of RBulk k \<Rightarrow> [k] | _ \<Rightarrow> []) (reply_list r))"

text \<open>
  Every method returns \<open>Inl e\<close> where the source's promise rejects with \<open>e\<close>, and
  \<open>Inr v\<close> where it resolves with \<open>v\<close>.
\<close>

definition set_key ::
  "json_codec \<Rightarrow> string \<Rightarrow> json \<Rightarrow> int option \<Rightarrow> cache_options option \<Rightarrow> redis
     \<Rightarrow> (store_error + unit) \<times> redis" where
  "set_key J key val ttlSeconds options s =
     (let fullKey = buildKey key (opt_namespace options);
          t = num_or ttlSeconds (num_or (opt_ttl options) defaultTTL);
          serializedValue = stringify J val;
          r = (if t > 0 then call (SETEX fullKey t serializedValue) s
               else call (SET fullKey serializedValue) s)
      in case fst r of
           Inl e \<Rightarrow> (Inl e, snd r)
         | Inr ok \<Rightarrow> (Inr (), snd r))"

text \<open>The value read back: \<^verbatim>\<open>!value\<close> holds for a nil reply and for the empty string.\<close>

definition decode :: "json_codec \<Rightarrow> reply \<Rightarrow> json option" where
  "decode J r =
     (case reply_string r of
        None \<Rightarrow> Some JNull
      | Some v \<Rightarrow> if v = [] then Some JNull else parse J v)"

definition get ::
  "json_codec \<Rightarrow> string \<Rightarrow> cache_options option \<Rightarrow> redis \<Rightarrow> (store_error + json) \<times> redis" where
  "get J key options s =
     (let fullKey = buildKey key (opt_namespace options);
          r = call (GET fullKey) s
      in case fst r of
           Inl e \<Rightarrow> (Inr JNull, snd r)
         | Inr v \<Rightarrow>
             (case decode J v of
                None \<Rightarrow> (Inr JNull, snd r)
              | Some j \<Rightarrow> (Inr j, snd r)))"

definition delete ::
  "string \<Rightarrow> cache_options option \<Rightarrow> redis \<Rightarrow> (store_error + bool) \<times> redis" where
  "delete key options s =
     (let fullKey = buildKey key (opt_namespace options);
          r = call (DEL [fullKey]) s
      in case fst r of
           Inl e \<Rightarrow> (Inr False, snd r)
         | Inr result \<Rightarrow> (Inr (reply_int result > 0), snd r))"

text \<open>
  The scan stream is modelled as one round trip that yields every matching key in a single
  batch.  The \<^verbatim>\<open>data\<close> handler deletes a non-empty batch; a failure inside the handler is
  not awaited by the method and never reaches its \<^verbatim>\<open>catch\<close>.  A failure of the stream
  itself does, and the method then resolves with 0.  The count returned is the one the
  method reads when the handler has finished before the stream ends.
\<close>

definition scan_and_delete :: "string \<Rightarrow> redis \<Rightarrow> (store_error + int) \<times> redis" where
  "scan_and_delete fullPattern s =
     (let scanned = call (SCAN fullPattern) s
      in case fst scanned of
           Inl e \<Rightarrow> (Inl e, snd scanned)
         | Inr batch \<Rightarrow>
             (let keys = reply_keys batch
              in if length keys > 0 then
                   (let d = call (DEL keys) (snd scanned)
                    in case fst d of
                         Inl e \<Rightarrow> (Inr 0, snd d)
                       | Inr n \<Rightarrow> (Inr (reply_int n), snd d))
                 else (Inr 0, snd scanned)))"

definition deleteByPattern ::
  "string \<Rightarrow> cache_options option \<Rightarrow> redis \<Rightarrow> (store_error + int) \<times> redis" where
  "deleteByPattern pattern options s =
     (let ns = str_or (opt_namespace options) defaultNamespace;
          fullPattern = ns @ '':'' @ pattern;
          r = scan_and_delete fullPattern s
      in case fst r of
           Inl e \<Rightarrow> (Inr 0, snd r)
         | Inr deletedCount \<Rightarrow> (Inr deletedCount, snd r))"








section \<open>RateLimitGuard\<close>

record request =
  ip :: "string option"
  remoteAddress :: "string option"
  user_id :: "string option"

record RateLimitOptions =
  limit :: int
  windowMs :: int
  keyGenerator :: "(request \<Rightarrow> string) option"

text \<open>
  The guard after its constructor has run.  \<open>sha256_hex\<close> is the platform's
  \<^verbatim>\<open>createHash('sha256').update(ip).digest('hex')\<close>.
\<close>

record RateLimitGuard =
  defaultLimit :: int
  defaultWindowMs :: int
  sha256_hex :: "string \<Rightarrow> string"

definition new_RateLimitGuard ::
  "int option \<Rightarrow> int option \<Rightarrow> (string \<Rightarrow> string) \<Rightarrow> RateLimitGuard" where
  "new_RateLimitGuard RATE_LIMIT_MAX RATE_LIMIT_TTL h =
     \<lparr>defaultLimit = num_or RATE_LIMIT_MAX 100,
      defaultWindowMs = num_or RATE_LIMIT_TTL 60 * 1000,
      sha256_hex = h\<rparr>"

text \<open>
  The execution context: the request and the decorator metadata the reflector finds on
  the handler and on the controller.
\<close>

record execution_context =
  ctx_request :: request
  handler_options :: "RateLimitOptions option"
  controller_options :: "RateLimitOptions option"

definition defaultKeyGenerator :: "RateLimitGuard \<Rightarrow> request \<Rightarrow> string" where
  "defaultKeyGenerator G req =
     (let ip_addr = str_or (ip req) (str_or (remoteAddress req) ''unknown'');
          hashedIp = take 16 (sha256_hex G ip_addr)
      in case user_id req of
           None \<Rightarrow> hashedIp
         | Some userId \<Rightarrow> if userId = [] then hashedIp else hashedIp @ '':'' @ userId)"

definition getCurrentCount :: "string \<Rightarrow> int \<Rightarrow> int \<Rightarrow> redis \<Rightarrow> int \<times> redis" where
  "getCurrentCount key windowStart wMs s =
     (let removed = call (ZREMRANGEBYSCORE key 0 windowStart) s
      in case fst removed of
           Inl e \<Rightarrow> (0, snd removed)
         | Inr n \<Rightarrow>
             (let counted = call (ZCARD key) (snd removed)
              in case fst counted of
                   Inl e \<Rightarrow> (0, snd counted)
                 | Inr c \<Rightarrow> (reply_int c, snd counted)))"

definition incrementCount :: "string \<Rightarrow> int \<Rightarrow> int \<Rightarrow> redis \<Rightarrow> redis" where
  "incrementCount key timestamp wMs s =
     snd (exec [ZADD key timestamp timestamp, EXPIRE key (ceil_div1000 wMs)] s)"

text \<open>
  The body of the 429 response (its message text, a rendering of the limit and the
  window, is left out) and the headers of an admitted response (the reset instant is kept
  as a number of milliseconds instead of its ISO rendering).
\<close>

record rejection =
  statusCode :: int
  rej_limit :: int
  current :: int
  remaining :: int
  retryAfter :: int

record rate_headers =
  X_RateLimit_Limit :: int
  X_RateLimit_Remaining :: int
  X_RateLimit_Reset :: int

datatype guard_error = TooManyRequests rejection | StoreFailure store_error

definition canActivate ::
  "RateLimitGuard \<Rightarrow> execution_context \<Rightarrow> redis \<Rightarrow> (guard_error + bool \<times> rate_headers) \<times> redis" where
  "canActivate G ctx s =
     (let req = ctx_request ctx;
          rateLimitOptions =
            (case handler_options ctx of Some ho \<Rightarrow> Some ho | None \<Rightarrow> controller_options ctx);
          lim = num_or (map_option limit rateLimitOptions) (defaultLimit G);
          wMs = num_or (map_option windowMs rateLimitOptions) (defaultWindowMs G);
          keyGen =
            (case rateLimitOptions of
               None \<Rightarrow> defaultKeyGenerator G
             | Some ro \<Rightarrow> (case keyGenerator ro of None \<Rightarrow> defaultKeyGenerator G | Some f \<Rightarrow> f));
          key = keyGen req;
          cacheKey = ''rate_limit:'' @ key;
          now = clock s;
          windowStart = now - wMs;
          counted = getCurrentCount cacheKey windowStart wMs s;
          currentCount = fst counted
      in if currentCount \<ge> lim then
           (let t = call (TTL cacheKey) (snd counted)
            in case fst t of
                 Inl e \<Rightarrow> (Inl (StoreFailure e), snd t)
               | Inr r \<Rightarrow>
                   (let secs = reply_int r
                    in (Inl (TooManyRequests
                              \<lparr>statusCode = 429,
                               rej_limit = lim,
                               current = currentCount,
                               remaining = 0,
                               retryAfter = ceil_div1000 (if secs > 0 then secs else wMs)\<rparr>),
                        snd t)))
         else
           (let s' = incrementCount cacheKey now wMs (snd counted)
            in (Inr (True,
                     \<lparr>X_RateLimit_Limit = lim,
                      X_RateLimit_Remaining = max 0 (lim - currentCount - 1),
                      X_RateLimit_Reset = now + wMs\<rparr>),
                s')))"

text \<open>The members of a key's window record that are live at an instant, and at the store's clock.\<close>

definition window_at :: "int \<Rightarrow> (string \<times> entry) list \<Rightarrow> string \<Rightarrow> (int \<times> int) list" where
  "window_at now d k =
     (case live_at now d k of
        None \<Rightarrow> []
      | Some e \<Rightarrow> (case payload e of VZSet zs \<Rightarrow> zs | VString v \<Rightarrow> []))"

definition window :: "redis \<Rightarrow> string \<Rightarrow> (int \<times> int) list" where
  "window s k = window_at (clock s) (db s) k"

text \<open>
  The limit, the window length and the store key that \<open>canActivate\<close> computes for a
  context, named so that statements can refer to them.
\<close>

definition options_of :: "execution_context \<Rightarrow> RateLimitOptions option" where
  "options_of ctx =
     (case handler_options ctx of Some ho \<Rightarrow> Some ho | None \<Rightarrow> controller_options ctx)"

definition limit_of :: "RateLimitGuard \<Rightarrow> execution_context \<Rightarrow> int" where
  "limit_of G ctx = num_or (map_option limit (options_of ctx)) (defaultLimit G)"

definition window_of :: "RateLimitGuard \<Rightarrow> execution_context \<Rightarrow> int" where
  "window_of G ctx = num_or (map_option windowMs (options_of ctx)) (defaultWindowMs G)"

definition rate_key :: "RateLimitGuard \<Rightarrow> execution_context \<Rightarrow> string" where
  "rate_key G ctx =
     (let keyGen =
            (case options_of ctx of
               None \<Rightarrow> defaultKeyGenerator G
             | Some ro \<Rightarrow> (case keyGenerator ro of None \<Rightarrow> defaultKeyGenerator G | Some f \<Rightarrow> f))
      in ''rate_limit:'' @ keyGen (ctx_request ctx))"

text \<open>Sequential checks: each one runs to completion at its own instant.\<close>

fun checks ::
  "RateLimitGuard \<Rightarrow> execution_context \<Rightarrow> int list \<Rightarrow> redis
     \<Rightarrow> (guard_error + bool \<times> rate_headers) list \<times> redis" where
  "checks G ctx [] s = ([], s)"
| "checks G ctx (t # ts) s =
     (let r = canActivate G ctx (s\<lparr>clock := t\<rparr>);
          rest = checks G ctx ts (snd r)
      in (fst r # fst rest, snd rest))"

definition admitted :: "(guard_error + bool \<times> rate_headers) \<Rightarrow> bool" where
  "admitted r = (case r of Inl e \<Rightarrow> False | Inr ok \<Rightarrow> fst ok)"

text \<open>
  What the specification promises for sequential checks of one key within one window,
  the \<open>j\<close> earlier admissions counted: a check is admitted while fewer than \<open>L\<close> have
  been, reporting the remaining capacity and the reset instant \<open>now + W\<close>; afterwards
  every check is rejected with \<open>remaining = 0\<close>.
\<close>

datatype verdict = Admit int int | Reject int int

fun expected_verdicts :: "int \<Rightarrow> int \<Rightarrow> nat \<Rightarrow> int list \<Rightarrow> verdict list" where
  "expected_verdicts L W j [] = []"
| "expected_verdicts L W j (t # ts) =
     (if int j < L then Admit (L - int j - 1) (t + W) # expected_verdicts L W (Suc j) ts
      else Reject (int j) 0 # expected_verdicts L W j ts)"

fun is_admit :: "verdict \<Rightarrow> bool" where
  "is_admit (Admit r t) = True"
| "is_admit (Reject c r) = False"

text \<open>The verdict a check's outcome carries: remaining and reset, or current and remaining.\<close>

definition verdict_of :: "(guard_error + bool \<times> rate_headers) \<Rightarrow> verdict option" where
  "verdict_of r =
     (case r of
        Inr ok \<Rightarrow>
          if fst ok then Some (Admit (X_RateLimit_Remaining (snd ok)) (X_RateLimit_Reset (snd ok)))
          else None
      | Inl (TooManyRequests b) \<Rightarrow> Some (Reject (current b) (remaining b))
      | Inl (StoreFailure e) \<Rightarrow> None)"

text \<open>
  The stored record of a key: absent when \<open>zs\<close> is empty, else the sorted set \<open>zs\<close>
  with expiry instant \<open>x\<close>.
\<close>

definition record_is ::
  "(string \<times> entry) list \<Rightarrow> string \<Rightarrow> (int \<times> int) list \<Rightarrow> int \<Rightarrow> bool" where
  "record_is d k zs x =
     (if zs = [] then map_of d k = None
      else map_of d k = Some \<lparr>payload = VZSet zs, expire_at = Some x\<rparr>)"

section \<open>AuthService: refresh-token rotation\<close>

text \<open>
  Signed credentials are symbolic: a token records its payload, the secret it was signed
  with and the instant it expires.  \<open>Malformed\<close> is any string that is not a signed
  token; \<open>Malformed []\<close> is the empty string.
\<close>

record jwt_payload =
  sub :: string
  pl_email :: "string option"
  pl_role :: "string option"
  pl_tokenId :: "string option"
  pl_type :: "string option"

datatype token = Malformed string | Signed jwt_payload string int

record user =
  user_ident :: string
  user_email :: string
  user_name :: string
  user_role :: string

text \<open>
  The service after its constructor has run, with its collaborators' configuration:
  the refresh TTL in seconds, the two signing secrets, the two token lifetimes in
  milliseconds, the JSON codec, and \<open>randomHex n\<close>, the \<open>n\<close>-th value that
  \<^verbatim>\<open>randomBytes(32).toString('hex')\<close> yields.  The \<^verbatim>\<open>createdAt\<close> field of a stored
  record keeps the instant as a number instead of its ISO rendering.
\<close>

record AuthService =
  refreshTokenTTL :: int
  accessSecret :: string
  refreshSecret :: string
  accessExpiresMs :: int
  refreshExpiresMs :: int
  codec :: json_codec
  randomHex :: "nat \<Rightarrow> string"

text \<open>
  What the service acts on: the shared store, the users the user service finds by id, and
  the number of random values drawn so far.
\<close>

record world =
  store :: redis
  users :: "(string \<times> user) list"
  drawn :: nat

datatype auth_error = Unauthorized string | StoreError store_error

record token_pair =
  accessToken :: token
  refreshToken_of :: token

definition jwt_sign :: "jwt_payload \<Rightarrow> string \<Rightarrow> int \<Rightarrow> int \<Rightarrow> token" where
  "jwt_sign pl secret lifetime now = Signed pl secret (now + lifetime)"

text \<open>\<^verbatim>\<open>jwtService.verify\<close>: \<open>None\<close> where it throws.\<close>

definition jwt_verify :: "token \<Rightarrow> string \<Rightarrow> int \<Rightarrow> jwt_payload option" where
  "jwt_verify tok secret now =
     (case tok of
        Malformed x \<Rightarrow> None
      | Signed pl signed_with exp \<Rightarrow>
          if signed_with = secret \<and> now < exp then Some pl else None)"

definition generateTokens ::
  "AuthService \<Rightarrow> string \<Rightarrow> string \<Rightarrow> string \<Rightarrow> world \<Rightarrow> (auth_error + token_pair) \<times> world" where
  "generateTokens A userId email role w =
     (let now = clock (store w);
          pl = \<lparr>sub = userId, pl_email = Some email, pl_role = Some role,
                 pl_tokenId = None, pl_type = None\<rparr>;
          access = jwt_sign pl (accessSecret A) (accessExpiresMs A) now;
          tokenId = randomHex A (drawn w);
          refreshTokenData =
            JObj [(''userId'', JStr userId), (''email'', JStr email), (''role'', JStr role),
                  (''tokenId'', JStr tokenId), (''createdAt'', JNum now)];
          refreshTokenPayload =
            \<lparr>sub = userId, pl_email = None, pl_role = None,
             pl_tokenId = Some tokenId, pl_type = Some ''refresh''\<rparr>;
          refresh = jwt_sign refreshTokenPayload (refreshSecret A) (refreshExpiresMs A) now;
          stored =
            set_key (codec A) (''refresh_token:'' @ tokenId @ '':'' @ userId) refreshTokenData
              (Some (refreshTokenTTL A)) (Some \<lparr>ttl = None, namespace = Some ''auth''\<rparr>) (store w);
          w' = w\<lparr>store := snd stored, drawn := Suc (drawn w)\<rparr>
      in case fst stored of
           Inl e \<Rightarrow> (Inl (StoreError e), w')
         | Inr u \<Rightarrow> (Inr \<lparr>accessToken = access, refreshToken_of = refresh\<rparr>, w'))"

definition verifyRefreshToken ::
  "AuthService \<Rightarrow> token \<Rightarrow> world \<Rightarrow> (string \<times> string) option \<times> world" where
  "verifyRefreshToken A tok w =
     (case jwt_verify tok (refreshSecret A) (clock (store w)) of
        None \<Rightarrow> (None, w)
      | Some pl \<Rightarrow>
          (case pl_tokenId pl of
             None \<Rightarrow> (None, w)
           | Some tokenId \<Rightarrow>
               if pl_type pl \<noteq> Some ''refresh'' \<or> tokenId = [] then (None, w)
               else
                 (let got =
                        get (codec A) (''refresh_token:'' @ tokenId @ '':'' @ sub pl)
                          (Some \<lparr>ttl = None, namespace = Some ''auth''\<rparr>) (store w);
                      w' = w\<lparr>store := snd got\<rparr>
                  in case fst got of
                       Inl e \<Rightarrow> (None, w')
                     | Inr tokenData \<Rightarrow>
                         if \<not> truthy tokenData then (None, w')
                         else (Some (sub pl, tokenId), w'))))"

definition revokeRefreshToken :: "string option \<Rightarrow> world \<Rightarrow> (auth_error + unit) \<times> world" where
  "revokeRefreshToken tokenId w =
     (case tokenId of
        None \<Rightarrow> (Inr (), w)
      | Some tid \<Rightarrow>
          if tid = [] then (Inr (), w)
          else
            (let r = delete (''refresh_token:'' @ tid) None (store w);
                 w' = w\<lparr>store := snd r\<rparr>
             in case fst r of
                  Inl e \<Rightarrow> (Inl (StoreError e), w')
                | Inr b \<Rightarrow> (Inr (), w')))"

definition revokeAllUserTokens :: "string \<Rightarrow> world \<Rightarrow> (auth_error + unit) \<times> world" where
  "revokeAllUserTokens userId w =
     (let r = deleteByPattern (''refresh_token:*:'' @ userId) None (store w);
          w' = w\<lparr>store := snd r\<rparr>
      in case fst r of
           Inl e \<Rightarrow> (Inl (StoreError e), w')
         | Inr n \<Rightarrow> (Inr (), w'))"

definition refreshToken ::
  "AuthService \<Rightarrow> token \<Rightarrow> world \<Rightarrow> (auth_error + token_pair) \<times> world" where
  "refreshToken A tok w =
     (if tok = Malformed [] then (Inl (Unauthorized ''Refresh token is required''), w)
      else
        (let verified = verifyRefreshToken A tok w;
             w1 = snd verified
         in case fst verified of
              None \<Rightarrow> (Inl (Unauthorized ''Invalid or expired refresh token''), w1)
            | Some tokenData \<Rightarrow>
                (case map_of (users w1) (fst tokenData) of
                   None \<Rightarrow> (Inl (Unauthorized ''User not found''), w1)
                 | Some u \<Rightarrow>
                     (let revoked = revokeRefreshToken (Some (snd tokenData)) w1
                      in case fst revoked of
                           Inl e \<Rightarrow> (Inl e, snd revoked)
                         | Inr ok \<Rightarrow>
                             generateTokens A (user_ident u) (user_email u) (user_role u)
                               (snd revoked)))))"

section \<open>CircuitBreakerService\<close>




datatype breaker_status = Closed | Open | HalfOpen








section \<open>Observing the commands a call sends\<close>


text \<open>The commands sent between state \<open>s\<close> and a later state \<open>s'\<close>, and the keys they name.\<close>

definition issued :: "redis \<Rightarrow> redis \<Rightarrow> command list" where
  "issued s s' = drop (length (calls s)) (calls s')"


section \<open>Concrete configurations\<close>

text \<open>A small codec: strings are written with a leading \<open>s\<close>, objects as \<open>{}\<close>.\<close>

definition toy_codec :: json_codec where
  "toy_codec =
     \<lparr>stringify = (\<lambda>v. case v of JStr x \<Rightarrow> CHR ''s'' # x | JNull \<Rightarrow> ''null'' | _ \<Rightarrow> ''{}''),
      parse = (\<lambda>t. case t of
                      [] \<Rightarrow> None
                    | c # cs \<Rightarrow>
                        if c = CHR ''s'' then Some (JStr cs)
                        else if t = ''null'' then Some JNull
                        else if t = ''{}'' then Some (JObj [])
                        else None)\<rparr>"

definition empty_store :: redis where
  "empty_store =
     \<lparr>db = [], clock = 0, calls = [], outage = (\<lambda>n. False), matcher = (\<lambda>p k. True)\<rparr>"

definition unreachable_store :: redis where
  "unreachable_store =
     \<lparr>db = [], clock = 0, calls = [], outage = (\<lambda>n. True), matcher = (\<lambda>p k. True)\<rparr>"

definition guard0 :: RateLimitGuard where
  "guard0 = new_RateLimitGuard None None (\<lambda>x. x)"

definition client_ctx :: "int \<Rightarrow> int \<Rightarrow> execution_context" where
  "client_ctx L W =
     \<lparr>ctx_request = \<lparr>ip = Some ''10.0.0.1'', remoteAddress = None, user_id = None\<rparr>,
      handler_options = Some \<lparr>limit = L, windowMs = W, keyGenerator = None\<rparr>,
      controller_options = None\<rparr>"

text \<open>
  The store after one admitted request of that client at instant 1000 under a window of
  60500 ms: one member, and an expiry 61 seconds later.
\<close>

definition one_request_store :: redis where
  "one_request_store =
     \<lparr>db = [(''rate_limit:10.0.0.1'',
             \<lparr>payload = VZSet [(1000, 1000)], expire_at = Some 62000\<rparr>)],
      clock = 1000,
      calls = [ZREMRANGEBYSCORE ''rate_limit:10.0.0.1'' 0 (- 59500), ZCARD ''rate_limit:10.0.0.1'',
               ZADD ''rate_limit:10.0.0.1'' 1000 1000, EXPIRE ''rate_limit:10.0.0.1'' 61],
      outage = (\<lambda>n. False),
      matcher = (\<lambda>p k. True)\<rparr>"

definition auth0 :: AuthService where
  "auth0 =
     \<lparr>refreshTokenTTL = 604800, accessSecret = ''as'', refreshSecret = ''rs'',
      accessExpiresMs = 86400000, refreshExpiresMs = 604800000, codec = toy_codec,
      randomHex = (\<lambda>n. replicate (Suc n) CHR ''a'')\<rparr>"

definition world0 :: world where
  "world0 =
     \<lparr>store = empty_store,
      users = [(''u1'', \<lparr>user_ident = ''u1'', user_email = ''a@b.c'', user_name = ''A'',
                        user_role = ''user''\<rparr>)],
      drawn = 0\<rparr>"

text \<open>The world after a login of user \<open>u1\<close>, and the refresh credential that login issued.\<close>

definition world1 :: world where
  "world1 = snd (generateTokens auth0 ''u1'' ''a@b.c'' ''user'' world0)"

definition credential1 :: token where
  "credential1 =
     Signed \<lparr>sub = ''u1'', pl_email = None, pl_role = None, pl_tokenId = Some ''a'',
             pl_type = Some ''refresh''\<rparr> ''rs'' 604800000"




section \<open>The client: basic facts\<close>



lemma call_down: "outage s (length (calls s)) \<Longrightarrow> fst (call c s) = Inl Unreachable"
  by (simp add: call_def Let_def)

lemma call_up:
  "\<not> outage s (length (calls s)) \<Longrightarrow>
   call c s =
     (fst (apply_cmd (matcher s) (clock s) c (db s)),
      s\<lparr>calls := calls s @ [c], db := snd (apply_cmd (matcher s) (clock s) c (db s))\<rparr>)"
  by (simp add: call_def Let_def)

lemma live_at_update:
  "live_at now (AList.update k e d) k' =
     (if k' = k then
        (case expire_at e of None \<Rightarrow> Some e | Some t \<Rightarrow> if now > t then None else Some e)
      else live_at now d k')"
  by (simp add: live_at_def AList.update_conv')

lemma live_at_delete:
  "live_at now (AList.delete k d) k' = (if k' = k then None else live_at now d k')"
  by (simp add: live_at_def AList.delete_conv')

lemma live_at_not_expired:
  "live_at now d k = Some e \<Longrightarrow> (case expire_at e of None \<Rightarrow> True | Some t \<Rightarrow> \<not> now > t)"
  by (auto simp: live_at_def split: option.splits if_splits)

lemma live_at_later:
  "now \<le> t \<Longrightarrow> live_at now d k = None \<Longrightarrow> live_at t d k = None"
  by (auto simp: live_at_def split: option.splits if_splits)

lemma live_at_earlier:
  "live_at t d k = Some e \<Longrightarrow> now \<le> t \<Longrightarrow> live_at now d k = Some e"
  by (auto simp: live_at_def split: option.splits if_splits)

section \<open>Cache: failure policy\<close>


lemma get_down:
  "outage s (length (calls s)) \<Longrightarrow> fst (get J k opts s) = Inr JNull"
  by (simp add: get_def Let_def call_down)








section \<open>Cache: round trip under a TTL\<close>

lemma set_key_stores:
  assumes up: "\<not> outage s (length (calls s))"
    and eff: "num_or t (num_or (opt_ttl opts) defaultTTL) = T" and pos: "0 < T"
  shows "snd (set_key J k v t opts s) =
           s\<lparr>calls := calls s @ [SETEX (buildKey k (opt_namespace opts)) T (stringify J v)],
             db := AList.update (buildKey k (opt_namespace opts))
                     \<lparr>payload = VString (stringify J v),
                      expire_at = Some (clock s + T * 1000)\<rparr> (db s)\<rparr>"
  using pos by (simp add: set_key_def Let_def eff call_up [OF up] split: sum.splits)

lemma get_reads:
  assumes up: "\<not> outage s (length (calls s))"
    and there: "live_at (clock s) (db s) (buildKey k (opt_namespace opts)) = Some e"
    and str: "payload e = VString x"
  shows "fst (get J k opts s) =
           Inr (case (if x = [] then Some JNull else parse J x) of None \<Rightarrow> JNull | Some j \<Rightarrow> j)"
  by (simp add: get_def Let_def call_up [OF up] there str decode_def reply_string_def
        split: option.splits)

lemma get_absent:
  assumes gone: "live_at (clock s) (db s) (buildKey k (opt_namespace opts)) = None"
  shows "fst (get J k opts s) = Inr JNull"
  by (cases "outage s (length (calls s))")
     (simp_all add: get_def Let_def call_up call_down gone decode_def reply_string_def)

lemma round_trip_effective:
  assumes up: "\<forall>n. \<not> outage s n"
    and rt: "parse J (stringify J v) = Some v" and ne: "stringify J v \<noteq> []"
    and eff: "num_or t (num_or (opt_ttl opts) defaultTTL) = T" and pos: "0 < T"
  shows "now \<le> clock s + T * 1000 \<Longrightarrow>
           fst (get J k opts ((snd (set_key J k v t opts s))\<lparr>clock := now\<rparr>)) = Inr v"
    and "clock s + T * 1000 < now \<Longrightarrow>
           fst (get J k opts ((snd (set_key J k v t opts s))\<lparr>clock := now\<rparr>)) = Inr JNull"
proof -
  let ?fk = "buildKey k (opt_namespace opts)"
  let ?e = "\<lparr>payload = VString (stringify J v), expire_at = Some (clock s + T * 1000)\<rparr>"
  let ?s1 = "(snd (set_key J k v t opts s))\<lparr>clock := now\<rparr>"
  have up0: "\<not> outage s (length (calls s))" using up by simp
  have s1: "snd (set_key J k v t opts s) =
           s\<lparr>calls := calls s @ [SETEX ?fk T (stringify J v)], db := AList.update ?fk ?e (db s)\<rparr>"
    by (rule set_key_stores [OF up0 eff pos])
  have up1: "\<not> outage ?s1 (length (calls ?s1))" using up by (simp add: s1)
  {
    assume "now \<le> clock s + T * 1000"
    then have "live_at (clock ?s1) (db ?s1) ?fk = Some ?e"
      by (simp add: s1 live_at_update)
    from get_reads [OF up1 this, of "stringify J v" J]
    show "fst (get J k opts ?s1) = Inr v" by (simp add: rt ne)
  }
  {
    assume "clock s + T * 1000 < now"
    then have "live_at (clock ?s1) (db ?s1) ?fk = None"
      by (simp add: s1 live_at_update)
    from get_absent [OF this]
    show "fst (get J k opts ?s1) = Inr JNull" .
  }
qed

text \<open>
  C3, as stated, fails in its last part: a value set with no TTL argument is stored with
  the default TTL of 300 seconds, so 301 seconds later \<open>get\<close> returns absent.
\<close>

theorem default_ttl_expires:
  "fst (get toy_codec ''k'' None
         ((snd (set_key toy_codec ''k'' (JStr ''v'') None None empty_store))\<lparr>clock := 301000\<rparr>))
     = Inr JNull"
  by code_simp

text \<open>
  C3, amended.  For a reachable store and a value that survives the JSON round trip:
  after \<open>set(k, v, T)\<close> with \<open>T > 0\<close>, \<open>get(k)\<close> returns \<open>v\<close> before \<open>T\<close> seconds have
  elapsed and absent after; when the TTL argument is absent and the options carry no
  TTL, the entry expires after the default 300 seconds: \<open>get(k)\<close> returns \<open>v\<close> before
  that and absent after.
\<close>

theorem cache_round_trip:
  assumes up: "\<forall>n. \<not> outage s n"
    and rt: "parse J (stringify J v) = Some v" and ne: "stringify J v \<noteq> []"
  shows "(0 < T \<and> now < clock s + T * 1000 \<longrightarrow>
            fst (get J k opts ((snd (set_key J k v (Some T) opts s))\<lparr>clock := now\<rparr>)) = Inr v)
       \<and> (0 < T \<and> clock s + T * 1000 < now \<longrightarrow>
            fst (get J k opts ((snd (set_key J k v (Some T) opts s))\<lparr>clock := now\<rparr>)) = Inr JNull)
       \<and> (opt_ttl opts = None \<and> now < clock s + 300000 \<longrightarrow>
            fst (get J k opts ((snd (set_key J k v None opts s))\<lparr>clock := now\<rparr>)) = Inr v)
       \<and> (opt_ttl opts = None \<and> clock s + 300000 < now \<longrightarrow>
            fst (get J k opts ((snd (set_key J k v None opts s))\<lparr>clock := now\<rparr>)) = Inr JNull)"
proof -
  have given: "num_or (Some T) (num_or (opt_ttl opts) defaultTTL) = T" if "0 < T"
    using that by (simp add: num_or_def)
  have dflt: "num_or None (num_or (opt_ttl opts) defaultTTL) = 300" if "opt_ttl opts = None"
    using that by (simp add: num_or_def defaultTTL_def)
  have a: "fst (get J k opts ((snd (set_key J k v (Some T) opts s))\<lparr>clock := now\<rparr>)) = Inr v"
    if "0 < T" "now < clock s + T * 1000"
    using round_trip_effective(1) [OF up rt ne given [OF that(1)] that(1), of now k] that(2)
    by simp
  have b: "fst (get J k opts ((snd (set_key J k v (Some T) opts s))\<lparr>clock := now\<rparr>)) = Inr JNull"
    if "0 < T" "clock s + T * 1000 < now"
    using round_trip_effective(2) [OF up rt ne given [OF that(1)] that(1), of now k] that(2)
    by simp
  have c: "fst (get J k opts ((snd (set_key J k v None opts s))\<lparr>clock := now\<rparr>)) = Inr v"
    if "opt_ttl opts = None" "now < clock s + 300000"
    using round_trip_effective(1) [OF up rt ne dflt [OF that(1)], of now k] that(2)
    by simp
  have d: "fst (get J k opts ((snd (set_key J k v None opts s))\<lparr>clock := now\<rparr>)) = Inr JNull"
    if "opt_ttl opts = None" "clock s + 300000 < now"
    using round_trip_effective(2) [OF up rt ne dflt [OF that(1)], of now k] that(2)
    by simp
  from a b c d show ?thesis by blast
qed

theorem cache_round_trip_witness:
  "fst (get toy_codec ''k'' None
         ((snd (set_key toy_codec ''k'' (JStr ''v'') (Some 1) None empty_store))\<lparr>clock := 999\<rparr>))
     = Inr (JStr ''v'')
   \<and> fst (get toy_codec ''k'' None
         ((snd (set_key toy_codec ''k'' (JStr ''v'') (Some 1) None empty_store))\<lparr>clock := 1500\<rparr>))
     = Inr JNull
   \<and> fst (get toy_codec ''k'' None
         ((snd (set_key toy_codec ''k'' (JStr ''v'') None None empty_store))\<lparr>clock := 299999\<rparr>))
     = Inr (JStr ''v'')
   \<and> fst (get toy_codec ''k'' None
         ((snd (set_key toy_codec ''k'' (JStr ''v'') None None empty_store))\<lparr>clock := 300001\<rparr>))
     = Inr JNull"
proof -
  have up: "\<forall>n. \<not> outage empty_store n" by (simp add: empty_store_def)
  have rt: "parse toy_codec (stringify toy_codec (JStr ''v'')) = Some (JStr ''v'')"
    by (simp add: toy_codec_def)
  have ne: "stringify toy_codec (JStr ''v'') \<noteq> []" by (simp add: toy_codec_def)
  have c: "clock empty_store = 0" by (simp add: empty_store_def)
  have o: "opt_ttl None = None" by (simp add: opt_ttl_def)
  from cache_round_trip [OF up rt ne, where T = 1 and now = 999 and k = "''k''" and opts = None]
       cache_round_trip [OF up rt ne, where T = 1 and now = 1500 and k = "''k''" and opts = None]
       cache_round_trip [OF up rt ne, where T = 1 and now = 299999 and k = "''k''" and opts = None]
       cache_round_trip [OF up rt ne, where T = 1 and now = 300001 and k = "''k''" and opts = None]
  show ?thesis by (simp add: c o)
qed

section \<open>Cache: every key is namespaced\<close>





















section \<open>Rate limiter: one admission check\<close>

declare apply_cmd.simps [simp del]

lemma canActivate_unfold:
  "canActivate G ctx s =
     (let counted =
            getCurrentCount (rate_key G ctx) (clock s - window_of G ctx) (window_of G ctx) s
      in if fst counted \<ge> limit_of G ctx then
           (let t = call (TTL (rate_key G ctx)) (snd counted)
            in case fst t of
                 Inl e \<Rightarrow> (Inl (StoreFailure e), snd t)
               | Inr r \<Rightarrow>
                   (Inl (TooManyRequests
                          \<lparr>statusCode = 429, rej_limit = limit_of G ctx, current = fst counted,
                           remaining = 0,
                           retryAfter =
                             ceil_div1000 (if reply_int r > 0 then reply_int r
                                           else window_of G ctx)\<rparr>),
                    snd t))
         else
           (Inr (True,
                 \<lparr>X_RateLimit_Limit = limit_of G ctx,
                  X_RateLimit_Remaining = max 0 (limit_of G ctx - fst counted - 1),
                  X_RateLimit_Reset = clock s + window_of G ctx\<rparr>),
            incrementCount (rate_key G ctx) (clock s) (window_of G ctx) (snd counted)))"
  unfolding canActivate_def rate_key_def limit_of_def window_of_def options_of_def Let_def
  by (simp split: sum.splits)

lemma getCurrentCount_down:
  "outage s (length (calls s)) \<Longrightarrow> fst (getCurrentCount key ws w s) = 0"
  by (simp add: getCurrentCount_def Let_def call_down)

lemma limiter_admits_when_down:
  assumes down: "outage s (length (calls s))" and pos: "0 < limit_of G ctx"
  shows "fst (canActivate G ctx s) =
           Inr (True, \<lparr>X_RateLimit_Limit = limit_of G ctx,
                       X_RateLimit_Remaining = limit_of G ctx - 1,
                       X_RateLimit_Reset = clock s + window_of G ctx\<rparr>)"
  using pos by (simp add: canActivate_unfold Let_def getCurrentCount_down [OF down])

text \<open>What the eviction command does to a key's window, seen at the same instant or later.\<close>

lemma zrem_window:
  "window_at now (snd (apply_cmd g now (ZREMRANGEBYSCORE k lo hi) d)) k =
     zset_remrange lo hi (window_at now d k)"
proof (cases "live_at now d k")
  case None
  then show ?thesis by (simp add: window_at_def zset_remrange_def apply_cmd.simps)
next
  case (Some e)
  show ?thesis
  proof (cases "payload e")
    case (VString v)
    with Some show ?thesis by (simp add: window_at_def zset_remrange_def apply_cmd.simps)
  next
    case (VZSet zs)
    from live_at_not_expired [OF Some]
    have ex: "(case expire_at e of None \<Rightarrow> True | Some t \<Rightarrow> \<not> now > t)" .
    show ?thesis
    proof (cases "zset_remrange lo hi zs = []")
      case True
      with Some VZSet show ?thesis
        by (simp add: window_at_def Let_def live_at_delete apply_cmd.simps)
    next
      case False
      with Some VZSet ex show ?thesis
        by (simp add: window_at_def Let_def live_at_update apply_cmd.simps split: option.splits)
    qed
  qed
qed

lemma zrem_window_later:
  assumes le: "now \<le> t"
  shows "window_at t (snd (apply_cmd g now (ZREMRANGEBYSCORE k lo hi) d)) k =
           zset_remrange lo hi (window_at t d k)"
proof (cases "live_at now d k")
  case None
  with live_at_later [OF le None] show ?thesis
    by (simp add: window_at_def zset_remrange_def apply_cmd.simps)
next
  case (Some e)
  show ?thesis
  proof (cases "payload e")
    case (VString v)
    with Some have same: "snd (apply_cmd g now (ZREMRANGEBYSCORE k lo hi) d) = d"
      by (simp add: apply_cmd.simps)
    have "window_at t d k = []"
    proof (cases "live_at t d k")
      case None
      then show ?thesis by (simp add: window_at_def)
    next
      case (Some e')
      from live_at_earlier [OF this le] \<open>live_at now d k = Some e\<close> have "e' = e" by simp
      with Some VString show ?thesis by (simp add: window_at_def)
    qed
    with same show ?thesis by (simp add: zset_remrange_def)
  next
    case (VZSet zs)
    have before: "window_at t d k = [] \<or> window_at t d k = zs"
    proof (cases "live_at t d k")
      case None
      then show ?thesis by (simp add: window_at_def)
    next
      case (Some e')
      from live_at_earlier [OF this le] \<open>live_at now d k = Some e\<close> have "e' = e" by simp
      with Some VZSet show ?thesis by (simp add: window_at_def)
    qed
    have mo: "map_of d k = Some e"
      using Some by (auto simp: live_at_def split: option.splits if_splits)
    show ?thesis
    proof (cases "zset_remrange lo hi zs = []")
      case True
      with Some VZSet
      have "window_at t (snd (apply_cmd g now (ZREMRANGEBYSCORE k lo hi) d)) k = []"
        by (simp add: apply_cmd.simps window_at_def Let_def live_at_delete)
      with before True show ?thesis by (auto simp: zset_remrange_def)
    next
      case False
      with Some VZSet
      have after: "window_at t (snd (apply_cmd g now (ZREMRANGEBYSCORE k lo hi) d)) k =
         (case expire_at e of
            None \<Rightarrow> zset_remrange lo hi zs
          | Some x \<Rightarrow> if t > x then [] else zset_remrange lo hi zs)"
        by (simp add: apply_cmd.simps window_at_def Let_def live_at_update split: option.splits)
      have "window_at t d k =
              (case expire_at e of None \<Rightarrow> zs | Some x \<Rightarrow> if t > x then [] else zs)"
        using mo VZSet by (simp add: window_at_def live_at_def split: option.splits)
      with after show ?thesis by (auto simp: zset_remrange_def split: option.splits)
    qed
  qed
qed

lemma zcard_window:
  "fst (apply_cmd g now (ZCARD k) d) = Inr r \<Longrightarrow> reply_int r = int (length (window_at now d k))"
  by (auto simp: window_at_def reply_int_def apply_cmd.simps split: option.splits rvalue.splits)

lemma zcard_db: "snd (apply_cmd g now (ZCARD k) d) = d"
  by (simp add: apply_cmd.simps split: option.splits rvalue.splits)

lemma ttl_db: "snd (apply_cmd g now (TTL k) d) = d"
  by (simp add: apply_cmd.simps split: option.splits rvalue.splits)

lemma wrongtype_window:
  "fst (apply_cmd g now (ZREMRANGEBYSCORE k lo hi) d) = Inl e \<Longrightarrow> window_at now d k = []"
  by (auto simp: window_at_def Let_def apply_cmd.simps split: option.splits rvalue.splits if_splits)

lemma wrongtype_zcard:
  "fst (apply_cmd g now (ZCARD k) d) = Inl e \<Longrightarrow> window_at now d k = []"
  by (auto simp: window_at_def Let_def apply_cmd.simps split: option.splits rvalue.splits if_splits)

text \<open>
  With the store reachable, \<open>getCurrentCount\<close> returns the size of the window after
  eviction and leaves the keyspace as the eviction command left it.
\<close>

lemma getCurrentCount_up:
  assumes up0: "\<not> outage s (length (calls s))" and up1: "\<not> outage s (Suc (length (calls s)))"
  shows "\<exists>cs. getCurrentCount key ws w s =
           (int (length (zset_remrange 0 ws (window s key))),
            s\<lparr>calls := calls s @ cs,
              db := snd (apply_cmd (matcher s) (clock s) (ZREMRANGEBYSCORE key 0 ws) (db s))\<rparr>)
         \<and> (cs = [ZREMRANGEBYSCORE key 0 ws] \<or> cs = [ZREMRANGEBYSCORE key 0 ws, ZCARD key])"
proof -
  let ?a = "apply_cmd (matcher s) (clock s) (ZREMRANGEBYSCORE key 0 ws) (db s)"
  let ?s1 = "s\<lparr>calls := calls s @ [ZREMRANGEBYSCORE key 0 ws], db := snd ?a\<rparr>"
  let ?b = "apply_cmd (matcher s) (clock s) (ZCARD key) (snd ?a)"
  have c1: "call (ZREMRANGEBYSCORE key 0 ws) s = (fst ?a, ?s1)" by (rule call_up [OF up0])
  have up1': "\<not> outage ?s1 (length (calls ?s1))" using up1 by simp
  have c2: "call (ZCARD key) ?s1 =
              (fst ?b, s\<lparr>calls := calls s @ [ZREMRANGEBYSCORE key 0 ws, ZCARD key], db := snd ?a\<rparr>)"
    using call_up [OF up1', of "ZCARD key"] by (simp add: zcard_db)
  have w1: "window_at (clock s) (snd ?a) key = zset_remrange 0 ws (window s key)"
    by (simp only: zrem_window window_def)
  show ?thesis
  proof (cases "fst ?a")
    case (Inl e)
    from wrongtype_window [OF this] have "window s key = []" by (simp add: window_def)
    with Inl have "getCurrentCount key ws w s =
           (int (length (zset_remrange 0 ws (window s key))),
            s\<lparr>calls := calls s @ [ZREMRANGEBYSCORE key 0 ws], db := snd ?a\<rparr>)"
      by (simp add: getCurrentCount_def Let_def c1 zset_remrange_def)
    then show ?thesis by blast
  next
    case (Inr n)
    have "getCurrentCount key ws w s =
           (int (length (zset_remrange 0 ws (window s key))),
            s\<lparr>calls := calls s @ [ZREMRANGEBYSCORE key 0 ws, ZCARD key], db := snd ?a\<rparr>)"
    proof (cases "fst ?b")
      case (Inl e)
      from wrongtype_zcard [OF this] w1 have "zset_remrange 0 ws (window s key) = []" by simp
      with Inr Inl show ?thesis by (simp add: getCurrentCount_def Let_def c1 c2)
    next
      case (Inr r)
      from zcard_window [OF this] w1
      have "reply_int r = int (length (zset_remrange 0 ws (window s key)))" by simp
      with \<open>fst ?a = Inr n\<close> Inr show ?thesis by (simp add: getCurrentCount_def Let_def c1 c2)
    qed
    then show ?thesis by blast
  qed
qed

lemma getCurrentCount_fst:
  assumes up0: "\<not> outage s (length (calls s))" and up1: "\<not> outage s (Suc (length (calls s)))"
  shows "fst (getCurrentCount key ws w s) = int (length (zset_remrange 0 ws (window s key)))"
  using getCurrentCount_up [OF up0 up1, of key ws w] by auto




lemma remrange_twice:
  assumes "hi \<le> hi'"
  shows "zset_remrange lo hi' (zset_remrange lo hi zs) = zset_remrange lo hi' zs"
  using assms by (induction zs) (auto simp: zset_remrange_def in_range_def)

lemma issued_append: "issued s (s\<lparr>calls := calls s @ cs, db := d\<rparr>) = cs"
  by (simp add: issued_def)

section \<open>Rate limiter: claims about admission\<close>

text \<open>The store named \<open>one_request_store\<close> is what one admitted request leaves behind.\<close>

lemma one_request_store_reached:
  "db (snd (canActivate guard0 (client_ctx 5 60500) (empty_store\<lparr>clock := 1000\<rparr>))) =
     db one_request_store
   \<and> calls (snd (canActivate guard0 (client_ctx 5 60500) (empty_store\<lparr>clock := 1000\<rparr>))) =
     calls one_request_store"
  by code_simp

text \<open>
  C6.  When every round trip to the store fails, an admission check under a positive
  limit admits the request: it returns \<open>true\<close> with the headers of a first request and
  no error; and a cache \<open>get\<close> returns absent.
\<close>

theorem fail_open:
  assumes down: "\<forall>n. outage s n" and pos: "0 < limit_of G ctx"
  shows "fst (canActivate G ctx s) =
           Inr (True, \<lparr>X_RateLimit_Limit = limit_of G ctx,
                       X_RateLimit_Remaining = limit_of G ctx - 1,
                       X_RateLimit_Reset = clock s + window_of G ctx\<rparr>)
       \<and> fst (get J k opts s) = Inr JNull"
proof -
  have d0: "outage s (length (calls s))" using down by simp
  have "fst (get J k opts s) = Inr JNull" by (rule get_down [OF d0])
  with limiter_admits_when_down [OF d0 pos] show ?thesis by simp
qed

theorem fail_open_witness:
  "fst (canActivate guard0 (client_ctx 5 60000) unreachable_store) =
     Inr (True, \<lparr>X_RateLimit_Limit = 5, X_RateLimit_Remaining = 4, X_RateLimit_Reset = 60000\<rparr>)
   \<and> fst (get toy_codec ''k'' None unreachable_store) = Inr JNull"
proof -
  have down: "\<forall>n. outage unreachable_store n" by (simp add: unreachable_store_def)
  have l: "limit_of guard0 (client_ctx 5 60000) = 5" by code_simp
  have w: "window_of guard0 (client_ctx 5 60000) = 60000" by code_simp
  have c: "clock unreachable_store = 0" by (simp add: unreachable_store_def)
  have pos: "0 < limit_of guard0 (client_ctx 5 60000)" by (simp add: l)
  from fail_open [OF down pos, of toy_codec "''k''" None] show ?thesis by (simp add: l w c)
qed



text \<open>
  C10.  With the store reachable, a rejected admission check sends only the eviction, the
  count and the time-to-live query: the key's window afterwards is the window before
  without the members the eviction removed, and any later check observes the count it
  would have observed had the rejected check never run.
\<close>

theorem rejection_inserts_nothing:
  assumes up: "\<forall>n. \<not> outage s n"
    and rej: "fst (canActivate G ctx s) = Inl (TooManyRequests body)"
  shows "window (snd (canActivate G ctx s)) (rate_key G ctx) =
           [p \<leftarrow> window s (rate_key G ctx). \<not> (0 \<le> snd p \<and> snd p \<le> clock s - window_of G ctx)]
       \<and> set (issued s (snd (canActivate G ctx s))) \<subseteq>
           {ZREMRANGEBYSCORE (rate_key G ctx) 0 (clock s - window_of G ctx),
            ZCARD (rate_key G ctx), TTL (rate_key G ctx)}
       \<and> (\<forall>t \<ge> clock s.
            fst (getCurrentCount (rate_key G ctx) (t - window_of G ctx) (window_of G ctx)
                  ((snd (canActivate G ctx s))\<lparr>clock := t\<rparr>)) =
            fst (getCurrentCount (rate_key G ctx) (t - window_of G ctx) (window_of G ctx)
                  (s\<lparr>clock := t\<rparr>)))"
proof -
  let ?k = "rate_key G ctx" and ?W = "window_of G ctx"
  let ?a = "apply_cmd (matcher s) (clock s) (ZREMRANGEBYSCORE ?k 0 (clock s - ?W)) (db s)"
  have up0: "\<not> outage s (length (calls s))" and up1: "\<not> outage s (Suc (length (calls s)))"
    using up by simp_all
  from getCurrentCount_up [OF up0 up1, of ?k "clock s - ?W" ?W] obtain cs where
    gc: "getCurrentCount ?k (clock s - ?W) ?W s =
           (int (length (zset_remrange 0 (clock s - ?W) (window s ?k))),
            s\<lparr>calls := calls s @ cs, db := snd ?a\<rparr>)"
    and cs: "cs = [ZREMRANGEBYSCORE ?k 0 (clock s - ?W)]
             \<or> cs = [ZREMRANGEBYSCORE ?k 0 (clock s - ?W), ZCARD ?k]"
    by blast
  let ?s1 = "s\<lparr>calls := calls s @ cs, db := snd ?a\<rparr>"
  have full: "limit_of G ctx \<le> int (length (zset_remrange 0 (clock s - ?W) (window s ?k)))"
    using rej by (simp add: canActivate_unfold Let_def gc split: if_splits)
  have up2: "\<not> outage ?s1 (length (calls ?s1))" using up by simp
  have t: "call (TTL ?k) ?s1 =
             (fst (apply_cmd (matcher s) (clock s) (TTL ?k) (snd ?a)),
              s\<lparr>calls := calls s @ cs @ [TTL ?k], db := snd ?a\<rparr>)"
    using call_up [OF up2, of "TTL ?k"] by (simp add: ttl_db)
  have s': "snd (canActivate G ctx s) = s\<lparr>calls := calls s @ cs @ [TTL ?k], db := snd ?a\<rparr>"
    using full by (simp add: canActivate_unfold Let_def gc t split: sum.splits)
  have w: "window (snd (canActivate G ctx s)) ?k =
           [p \<leftarrow> window s ?k. \<not> (0 \<le> snd p \<and> snd p \<le> clock s - ?W)]"
    by (simp add: s' window_def zrem_window zset_remrange_def in_range_def)
  have i: "set (issued s (snd (canActivate G ctx s))) \<subseteq>
           {ZREMRANGEBYSCORE ?k 0 (clock s - ?W), ZCARD ?k, TTL ?k}"
    using cs by (auto simp: s' issued_append)
  have later: "fst (getCurrentCount ?k (t - ?W) ?W ((snd (canActivate G ctx s))\<lparr>clock := t\<rparr>)) =
            fst (getCurrentCount ?k (t - ?W) ?W (s\<lparr>clock := t\<rparr>))" if le: "clock s \<le> t" for t
  proof -
    let ?s2 = "(snd (canActivate G ctx s))\<lparr>clock := t\<rparr>"
    have u2: "\<not> outage ?s2 (length (calls ?s2))" "\<not> outage ?s2 (Suc (length (calls ?s2)))"
      using up by (simp_all add: s')
    have u3: "\<not> outage (s\<lparr>clock := t\<rparr>) (length (calls (s\<lparr>clock := t\<rparr>)))"
             "\<not> outage (s\<lparr>clock := t\<rparr>) (Suc (length (calls (s\<lparr>clock := t\<rparr>))))"
      using up by simp_all
    have "window ?s2 ?k = zset_remrange 0 (clock s - ?W) (window (s\<lparr>clock := t\<rparr>) ?k)"
      by (simp add: s' window_def zrem_window_later [OF le])
    then have "zset_remrange 0 (t - ?W) (window ?s2 ?k) =
               zset_remrange 0 (t - ?W) (window (s\<lparr>clock := t\<rparr>) ?k)"
      using le by (simp add: remrange_twice)
    then show ?thesis
      by (simp only: getCurrentCount_fst [OF u2] getCurrentCount_fst [OF u3])
  qed
  from w i later show ?thesis by blast
qed

theorem rejection_inserts_nothing_witness:
  "window (snd (canActivate guard0 (client_ctx 1 60500) (one_request_store\<lparr>clock := 2000\<rparr>)))
     ''rate_limit:10.0.0.1'' = [(1000, 1000)]
   \<and> fst (getCurrentCount ''rate_limit:10.0.0.1'' (- 57500) 60500
           ((snd (canActivate guard0 (client_ctx 1 60500) (one_request_store\<lparr>clock := 2000\<rparr>)))
              \<lparr>clock := 3000\<rparr>)) = 1"
proof -
  let ?s = "one_request_store\<lparr>clock := 2000\<rparr>"
  have up: "\<forall>n. \<not> outage ?s n" by (simp add: one_request_store_def)
  have rej: "fst (canActivate guard0 (client_ctx 1 60500) ?s) =
     Inl (TooManyRequests \<lparr>statusCode = 429, rej_limit = 1, current = 1, remaining = 0,
                           retryAfter = 1\<rparr>)"
    by code_simp
  have k: "rate_key guard0 (client_ctx 1 60500) = ''rate_limit:10.0.0.1''" by code_simp
  have w: "window_of guard0 (client_ctx 1 60500) = 60500" by code_simp
  have win: "window ?s ''rate_limit:10.0.0.1'' = [(1000, 1000)]" by code_simp
  have cnt: "fst (getCurrentCount ''rate_limit:10.0.0.1'' (- 57500) 60500 (?s\<lparr>clock := 3000\<rparr>)) = 1"
    by code_simp
  from rejection_inserts_nothing [OF up rej] have
    a: "window (snd (canActivate guard0 (client_ctx 1 60500) ?s)) ''rate_limit:10.0.0.1'' =
          [p \<leftarrow> [(1000, 1000)]. \<not> (0 \<le> snd p \<and> snd p \<le> clock ?s - 60500)]"
    and b: "\<forall>t \<ge> clock ?s.
            fst (getCurrentCount ''rate_limit:10.0.0.1'' (t - 60500) 60500
                  ((snd (canActivate guard0 (client_ctx 1 60500) ?s))\<lparr>clock := t\<rparr>)) =
            fst (getCurrentCount ''rate_limit:10.0.0.1'' (t - 60500) 60500 (?s\<lparr>clock := t\<rparr>))"
    by (simp_all add: k w win)
  from b [THEN spec, of 3000] cnt
  have "fst (getCurrentCount ''rate_limit:10.0.0.1'' (- 57500) 60500
              ((snd (canActivate guard0 (client_ctx 1 60500) ?s))\<lparr>clock := 3000\<rparr>)) = 1"
    by simp
  with a show ?thesis by simp
qed

text \<open>
  C4 fails on the code when two checks read the same millisecond: the member of the
  sorted set is the timestamp itself, so the second insertion replaces the first and the
  count does not grow.  Under limit 2, sequential checks at instants 1000, 1000 and 1001
  are all admitted, where min(3, 2) = 2 should be: after the first two the record holds
  one member.
\<close>

theorem same_instant_over_admission:
  "map admitted (fst (checks guard0 (client_ctx 2 60000) [1000, 1000, 1001] empty_store)) =
     [True, True, True]
   \<and> window (snd (checks guard0 (client_ctx 2 60000) [1000, 1000] empty_store))
       ''rate_limit:10.0.0.1'' = [(1000, 1000)]
   \<and> length (filter is_admit (expected_verdicts 2 60000 0 [1000, 1000, 1001])) = 2"
  by code_simp

text \<open>
  C5 fails on the code when the record's time-to-live is known: the number of seconds the
  store reports is divided by 1000 like the window length in milliseconds.  Under limit 1
  and a window of 60000 ms, a request at instant 1000 is admitted; at instant 2000 the
  record has 59 seconds to live and the rejection says \<open>retryAfter = 1\<close>.
\<close>

theorem retry_after_divides_seconds:
  "fst (checks guard0 (client_ctx 1 60000) [1000, 2000] empty_store) =
     [Inr (True, \<lparr>X_RateLimit_Limit = 1, X_RateLimit_Remaining = 0, X_RateLimit_Reset = 61000\<rparr>),
      Inl (TooManyRequests \<lparr>statusCode = 429, rej_limit = 1, current = 1, remaining = 0,
                            retryAfter = 1\<rparr>)]
   \<and> fst (call (TTL ''rate_limit:10.0.0.1'')
           ((snd (checks guard0 (client_ctx 1 60000) [1000] empty_store))\<lparr>clock := 2000\<rparr>)) =
       Inr (RInt 59)"
  by code_simp


section \<open>Rate limiter: sequences of checks at distinct instants\<close>

lemma ceil_div1000_ge: "W \<le> ceil_div1000 W * 1000"
proof -
  have "(- W) div 1000 * 1000 + (- W) mod 1000 = - W" by (rule div_mult_mod_eq)
  moreover have "0 \<le> (- W) mod 1000" by simp
  ultimately show ?thesis unfolding ceil_div1000_def by linarith
qed

lemma ceil_div1000_pos: "0 < W \<Longrightarrow> 0 < ceil_div1000 W"
  using ceil_div1000_ge [of W] by linarith

lemma zset_add_new: "m \<notin> fst ` set zs \<Longrightarrow> zset_add m sc zs = zs @ [(m, sc)]"
  by (induction zs) auto

lemma remrange_none:
  assumes "\<forall>p \<in> set zs. hi < snd p"
  shows "zset_remrange lo hi zs = zs"
  using assms by (induction zs) (auto simp: zset_remrange_def in_range_def)

lemma exec_up:
  "\<not> outage s (length (calls s)) \<Longrightarrow>
   snd (exec cs s) = s\<lparr>calls := calls s @ cs, db := snd (run_batch (matcher s) (clock s) cs (db s))\<rparr>"
  by (simp add: exec_def Let_def)

lemma record_window:
  assumes "record_is d k zs x" and "zs \<noteq> [] \<longrightarrow> now \<le> x"
  shows "window_at now d k = zs"
  using assms by (auto simp: record_is_def window_at_def live_at_def split: if_splits)

lemma record_live:
  assumes "record_is d k zs x" and "zs \<noteq> [] \<longrightarrow> now \<le> x"
  shows "live_at now d k = (if zs = [] then None else Some \<lparr>payload = VZSet zs, expire_at = Some x\<rparr>)"
  using assms by (auto simp: record_is_def live_at_def split: if_splits)

lemma zrem_keeps_record:
  assumes r: "record_is d k zs x" and l: "zs \<noteq> [] \<longrightarrow> now \<le> x"
    and w: "\<forall>p \<in> set zs. hi < snd p"
  shows "record_is (snd (apply_cmd g now (ZREMRANGEBYSCORE k lo hi) d)) k zs x"
proof (cases "zs = []")
  case True
  with record_live [OF r l] r show ?thesis by (simp add: apply_cmd.simps)
next
  case False
  with record_live [OF r l] remrange_none [OF w, of lo] show ?thesis
    by (simp add: apply_cmd.simps Let_def record_is_def AList.update_conv')
qed

lemma batch_adds:
  assumes r: "record_is d k zs x" and l: "zs \<noteq> [] \<longrightarrow> now \<le> x"
    and c: "0 < c" and new: "m \<notin> fst ` set zs"
  shows "record_is (snd (run_batch g now [ZADD k sc m, EXPIRE k c] d)) k (zs @ [(m, sc)]) (now + c * 1000)"
proof (cases "zs = []")
  case True
  with record_live [OF r l] c show ?thesis
    by (simp add: apply_cmd.simps Let_def record_is_def AList.update_conv' live_at_update)
next
  case False
  with record_live [OF r l] c l zset_add_new [OF new, of sc] show ?thesis
    by (simp add: apply_cmd.simps Let_def record_is_def AList.update_conv' live_at_update)
qed


lemma ttl_ok: "\<exists>r. fst (apply_cmd g now (TTL k) d) = Inr r"
  by (simp add: apply_cmd.simps split: option.splits)

lemma check_at_new_instant:
  assumes up: "\<forall>n. \<not> outage s n" and W: "0 < window_of G ctx"
    and r: "record_is (db s) (rate_key G ctx) zs x"
    and l: "zs \<noteq> [] \<longrightarrow> clock s \<le> x"
    and w: "\<forall>p \<in> set zs. clock s - window_of G ctx < snd p"
    and new: "clock s \<notin> fst ` set zs"
  shows "int (length zs) < limit_of G ctx \<Longrightarrow>
           fst (canActivate G ctx s) =
             Inr (True, \<lparr>X_RateLimit_Limit = limit_of G ctx,
                         X_RateLimit_Remaining = limit_of G ctx - int (length zs) - 1,
                         X_RateLimit_Reset = clock s + window_of G ctx\<rparr>)
           \<and> record_is (db (snd (canActivate G ctx s))) (rate_key G ctx)
                (zs @ [(clock s, clock s)]) (clock s + ceil_div1000 (window_of G ctx) * 1000)"
    and "limit_of G ctx \<le> int (length zs) \<Longrightarrow>
           (\<exists>ra. fst (canActivate G ctx s) =
              Inl (TooManyRequests \<lparr>statusCode = 429, rej_limit = limit_of G ctx,
                     current = int (length zs), remaining = 0, retryAfter = ra\<rparr>))
           \<and> record_is (db (snd (canActivate G ctx s))) (rate_key G ctx) zs x"
    and "outage (snd (canActivate G ctx s)) = outage s"
proof -
  let ?k = "rate_key G ctx" and ?W = "window_of G ctx" and ?L = "limit_of G ctx"
  let ?a = "apply_cmd (matcher s) (clock s) (ZREMRANGEBYSCORE ?k 0 (clock s - ?W)) (db s)"
  have up0: "\<not> outage s (length (calls s))" and up1: "\<not> outage s (Suc (length (calls s)))"
    using up by simp_all
  have win: "window s ?k = zs" by (simp add: window_def record_window [OF r l])
  have keep: "zset_remrange 0 (clock s - ?W) zs = zs" by (rule remrange_none [OF w])
  from getCurrentCount_up [OF up0 up1, of ?k "clock s - ?W" ?W] obtain cs where
    gc: "getCurrentCount ?k (clock s - ?W) ?W s =
           (int (length zs), s\<lparr>calls := calls s @ cs, db := snd ?a\<rparr>)"
    by (auto simp: win keep)
  let ?s1 = "s\<lparr>calls := calls s @ cs, db := snd ?a\<rparr>"
  have r1: "record_is (snd ?a) ?k zs x" by (rule zrem_keeps_record [OF r l w])
  have up2: "\<not> outage ?s1 (length (calls ?s1))" using up by simp
  have inc: "incrementCount ?k (clock s) ?W ?s1 =
      ?s1\<lparr>calls := calls ?s1 @ [ZADD ?k (clock s) (clock s), EXPIRE ?k (ceil_div1000 ?W)],
           db := snd (run_batch (matcher s) (clock s)
                       [ZADD ?k (clock s) (clock s), EXPIRE ?k (ceil_div1000 ?W)] (snd ?a))\<rparr>"
    using exec_up [OF up2, of "[ZADD ?k (clock s) (clock s), EXPIRE ?k (ceil_div1000 ?W)]"]
    by (simp add: incrementCount_def)
  have ttl: "call (TTL ?k) ?s1 =
      (fst (apply_cmd (matcher s) (clock s) (TTL ?k) (snd ?a)),
       s\<lparr>calls := calls s @ cs @ [TTL ?k], db := snd ?a\<rparr>)"
    using call_up [OF up2, of "TTL ?k"] by (simp add: ttl_db)
  {
    assume lt: "int (length zs) < ?L"
    have a1: "fst (canActivate G ctx s) =
             Inr (True, \<lparr>X_RateLimit_Limit = ?L,
                         X_RateLimit_Remaining = ?L - int (length zs) - 1,
                         X_RateLimit_Reset = clock s + ?W\<rparr>)"
      using lt by (simp add: canActivate_unfold Let_def gc)
    have a2: "db (snd (canActivate G ctx s)) =
                snd (run_batch (matcher s) (clock s)
                       [ZADD ?k (clock s) (clock s), EXPIRE ?k (ceil_div1000 ?W)] (snd ?a))"
      using lt by (simp add: canActivate_unfold Let_def gc inc)
    from batch_adds [OF r1 l ceil_div1000_pos [OF W] new] a1 a2
    show "fst (canActivate G ctx s) =
             Inr (True, \<lparr>X_RateLimit_Limit = ?L,
                         X_RateLimit_Remaining = ?L - int (length zs) - 1,
                         X_RateLimit_Reset = clock s + ?W\<rparr>)
           \<and> record_is (db (snd (canActivate G ctx s))) ?k
                (zs @ [(clock s, clock s)]) (clock s + ceil_div1000 ?W * 1000)"
      by simp
  }
  {
    assume ge: "?L \<le> int (length zs)"
    from ttl_ok obtain rr where rr: "fst (apply_cmd (matcher s) (clock s) (TTL ?k) (snd ?a)) = Inr rr"
      by blast
    have b1: "fst (canActivate G ctx s) =
              Inl (TooManyRequests \<lparr>statusCode = 429, rej_limit = ?L,
                     current = int (length zs), remaining = 0,
                     retryAfter = ceil_div1000 (if reply_int rr > 0 then reply_int rr else ?W)\<rparr>)"
      using ge by (simp add: canActivate_unfold Let_def gc ttl rr)
    have b2: "db (snd (canActivate G ctx s)) = snd ?a"
      using ge by (simp add: canActivate_unfold Let_def gc ttl rr)
    from b1 b2 r1
    show "(\<exists>ra. fst (canActivate G ctx s) =
              Inl (TooManyRequests \<lparr>statusCode = 429, rej_limit = ?L,
                     current = int (length zs), remaining = 0, retryAfter = ra\<rparr>))
           \<and> record_is (db (snd (canActivate G ctx s))) ?k zs x"
      by simp
  }
  show "outage (snd (canActivate G ctx s)) = outage s"
  proof (cases "int (length zs) < ?L")
    case True
    then show ?thesis by (simp add: canActivate_unfold Let_def gc inc)
  next
    case False
    from ttl_ok obtain rr where rr: "fst (apply_cmd (matcher s) (clock s) (TTL ?k) (snd ?a)) = Inr rr"
      by blast
    with False show ?thesis by (simp add: canActivate_unfold Let_def gc ttl)
  qed
qed


lemma checks_expected:
  assumes W: "0 < window_of G ctx"
  shows "\<lbrakk>\<forall>n. \<not> outage s n;
          record_is (db s) (rate_key G ctx) zs x;
          zs \<noteq> [] \<longrightarrow> B \<le> x;
          \<forall>p \<in> set zs. B \<le> snd p + window_of G ctx \<and> (\<forall>t \<in> set ts. fst p < t);
          sorted_wrt (<) ts;
          \<forall>t \<in> set ts. t < B \<and> B \<le> t + window_of G ctx\<rbrakk>
         \<Longrightarrow> map verdict_of (fst (checks G ctx ts s)) =
             map Some (expected_verdicts (limit_of G ctx) (window_of G ctx) (length zs) ts)"
proof (induction ts arbitrary: s zs x)
  case Nil
  then show ?case by simp
next
  case (Cons t ts)
  let ?k = "rate_key G ctx" and ?W = "window_of G ctx" and ?L = "limit_of G ctx"
  let ?s = "s\<lparr>clock := t\<rparr>"
  let ?s' = "snd (canActivate G ctx ?s)"
  have tB: "t < B" "B \<le> t + ?W" using Cons.prems(6) by simp_all
  have up: "\<forall>n. \<not> outage ?s n" using Cons.prems(1) by simp
  have r: "record_is (db ?s) ?k zs x" using Cons.prems(2) by simp
  have l: "zs \<noteq> [] \<longrightarrow> clock ?s \<le> x" using Cons.prems(3) tB by auto
  have w: "\<forall>p \<in> set zs. clock ?s - ?W < snd p" using Cons.prems(4) tB by fastforce
  have new: "clock ?s \<notin> fst ` set zs" using Cons.prems(4) by fastforce
  note step = check_at_new_instant [OF up W r l w new]
  have up': "\<forall>n. \<not> outage ?s' n" using step(3) Cons.prems(1) by simp
  have srt: "sorted_wrt (<) ts" using Cons.prems(5) by simp
  have later: "\<forall>u \<in> set ts. t < u" using Cons.prems(5) by simp
  have bnd: "\<forall>u \<in> set ts. u < B \<and> B \<le> u + ?W" using Cons.prems(6) by simp
  show ?case
  proof (cases "int (length zs) < ?L")
    case True
    from step(1) [OF True] have
      out: "fst (canActivate G ctx ?s) =
             Inr (True, \<lparr>X_RateLimit_Limit = ?L,
                         X_RateLimit_Remaining = ?L - int (length zs) - 1,
                         X_RateLimit_Reset = t + ?W\<rparr>)"
      and r': "record_is (db ?s') ?k (zs @ [(t, t)]) (t + ceil_div1000 ?W * 1000)"
      by simp_all
    have x': "zs @ [(t, t)] \<noteq> [] \<longrightarrow> B \<le> t + ceil_div1000 ?W * 1000"
      using tB ceil_div1000_ge [of ?W] by linarith
    have m': "\<forall>p \<in> set (zs @ [(t, t)]). B \<le> snd p + ?W \<and> (\<forall>u \<in> set ts. fst p < u)"
      using Cons.prems(4) tB later by auto
    from Cons.IH [OF up' r' x' m' srt bnd]
    have "map verdict_of (fst (checks G ctx ts ?s')) = map Some (expected_verdicts ?L ?W (Suc (length zs)) ts)"
      by simp
    moreover have "verdict_of (fst (canActivate G ctx ?s)) =
                     Some (Admit (?L - int (length zs) - 1) (t + ?W))"
      by (simp add: out verdict_of_def)
    ultimately show ?thesis using True by (simp add: Let_def)
  next
    case False
    then have ge: "?L \<le> int (length zs)" by simp
    from step(2) [OF ge] obtain ra where
      out: "fst (canActivate G ctx ?s) =
              Inl (TooManyRequests \<lparr>statusCode = 429, rej_limit = ?L,
                     current = int (length zs), remaining = 0, retryAfter = ra\<rparr>)"
      and r': "record_is (db ?s') ?k zs x"
      by blast
    have m': "\<forall>p \<in> set zs. B \<le> snd p + ?W \<and> (\<forall>u \<in> set ts. fst p < u)"
      using Cons.prems(4) by auto
    from Cons.IH [OF up' r' Cons.prems(3) m' srt bnd]
    have "map verdict_of (fst (checks G ctx ts ?s')) = map Some (expected_verdicts ?L ?W (length zs) ts)" .
    moreover have "verdict_of (fst (canActivate G ctx ?s)) = Some (Reject (int (length zs)) 0)"
      by (simp add: out verdict_of_def)
    ultimately show ?thesis using False by (simp add: Let_def)
  qed
qed

lemma expected_admissions:
  "length (filter is_admit (expected_verdicts L W j ts)) = min (length ts) (nat (L - int j))"
  by (induction ts arbitrary: j) (auto simp: min_def)

text \<open>
  From an absent record, with the store reachable and a positive window: sequential checks
  at strictly increasing instants that lie within one window length get exactly the
  verdicts the specification promises, and \<open>min(N, L)\<close> of them are admissions.
\<close>

lemma admissions_at_distinct_instants:
  assumes up: "\<forall>n. \<not> outage s n" and W: "0 < window_of G ctx"
    and none: "map_of (db s) (rate_key G ctx) = None"
    and inc: "sorted_wrt (<) ts"
    and one_window: "\<forall>t \<in> set ts. t < B \<and> B \<le> t + window_of G ctx"
  shows "map verdict_of (fst (checks G ctx ts s)) =
           map Some (expected_verdicts (limit_of G ctx) (window_of G ctx) 0 ts)
       \<and> length (filter is_admit (expected_verdicts (limit_of G ctx) (window_of G ctx) 0 ts)) =
           min (length ts) (nat (limit_of G ctx))"
proof -
  have r: "record_is (db s) (rate_key G ctx) [] 0" using none by (simp add: record_is_def)
  from checks_expected [OF W up r _ _ inc one_window]
  have "map verdict_of (fst (checks G ctx ts s)) =
           map Some (expected_verdicts (limit_of G ctx) (window_of G ctx) 0 ts)"
    by simp
  then show ?thesis by (simp add: expected_admissions)
qed

section \<open>Refresh-token rotation\<close>

text \<open>
  C1 fails on the code.  The record of a credential is stored under
  \<open>auth:refresh_token:<tokenId>:<userId>\<close>, while \<open>revokeRefreshToken\<close> deletes
  \<open>app:refresh_token:<tokenId>\<close>: the consumed record stays in the store.  After a login
  and one successful refresh with the login's credential, a second refresh that presents
  the same credential succeeds again and issues a third credential.
\<close>

theorem rotation_replay_accepted:
  "fst (generateTokens auth0 ''u1'' ''a@b.c'' ''user'' world0) =
     Inr \<lparr>accessToken =
            Signed \<lparr>sub = ''u1'', pl_email = Some ''a@b.c'', pl_role = Some ''user'',
                    pl_tokenId = None, pl_type = None\<rparr> ''as'' 86400000,
          refreshToken_of = credential1\<rparr>
   \<and> fst (refreshToken auth0 credential1 world1) =
     Inr \<lparr>accessToken =
            Signed \<lparr>sub = ''u1'', pl_email = Some ''a@b.c'', pl_role = Some ''user'',
                    pl_tokenId = None, pl_type = None\<rparr> ''as'' 86400000,
          refreshToken_of =
            Signed \<lparr>sub = ''u1'', pl_email = None, pl_role = None, pl_tokenId = Some ''aa'',
                    pl_type = Some ''refresh''\<rparr> ''rs'' 604800000\<rparr>
   \<and> fst (refreshToken auth0 credential1 (snd (refreshToken auth0 credential1 world1))) =
     Inr \<lparr>accessToken =
            Signed \<lparr>sub = ''u1'', pl_email = Some ''a@b.c'', pl_role = Some ''user'',
                    pl_tokenId = None, pl_type = None\<rparr> ''as'' 86400000,
          refreshToken_of =
            Signed \<lparr>sub = ''u1'', pl_email = None, pl_role = None, pl_tokenId = Some ''aaa'',
                    pl_type = Some ''refresh''\<rparr> ''rs'' 604800000\<rparr>
   \<and> issued (store world1) (store (snd (refreshToken auth0 credential1 world1))) =
     [GET ''auth:refresh_token:a:u1'', DEL [''app:refresh_token:a''],
      SETEX ''auth:refresh_token:aa:u1'' 604800 ''{}'']"
  by code_simp

section \<open>Circuit-breaker registry\<close>









end
